theory Spec2Isabelle
  imports Main "HOL-Library.Word"
begin

section \<open>JavaScript strings\<close>

text \<open>
  A JavaScript string is a sequence of UTF-16 code units. String literals of the
  source are ASCII and are written through \<open>js\<close>.
\<close>

type_synonym jschar = "16 word"
type_synonym jsstring = "jschar list"

definition js :: "string \<Rightarrow> jsstring" where
  "js s = map of_char s"

text \<open>
  The code units that \<open>String.prototype.trim\<close> removes and that \<open>\s\<close> matches:
  WhiteSpace (TAB, VT, FF, SP, NBSP, ZWNBSP and the category Zs) and LineTerminator
  (LF, CR, LS, PS).
\<close>

definition is_space :: "jschar \<Rightarrow> bool" where
  "is_space c \<longleftrightarrow>
     c \<in> {0x09, 0x0A, 0x0B, 0x0C, 0x0D, 0x20, 0xA0, 0x1680, 0x2028, 0x2029,
          0x202F, 0x205F, 0x3000, 0xFEFF}
     \<or> (0x2000 \<le> c \<and> c \<le> 0x200A)"

text \<open>\<open>\d\<close>: the ASCII digits.\<close>

definition is_digit :: "jschar \<Rightarrow> bool" where
  "is_digit c \<longleftrightarrow> 0x30 \<le> c \<and> c \<le> 0x39"

text \<open>The character class \<open>[*_#`]\<close>.\<close>

definition is_markdown :: "jschar \<Rightarrow> bool" where
  "is_markdown c \<longleftrightarrow> c \<in> {0x2A, 0x5F, 0x23, 0x60}"

definition dash :: jschar where "dash = 0x2D"
definition colon :: jschar where "colon = 0x3A"
definition dot :: jschar where "dot = 0x2E"
definition newline :: jschar where "newline = 0x0A"

definition is_dot :: "jschar \<Rightarrow> bool" where
  "is_dot c \<longleftrightarrow> c = dot"

text \<open>\<open>s.trim()\<close>\<close>

definition trim :: "jsstring \<Rightarrow> jsstring" where
  "trim s = rev (dropWhile is_space (rev (dropWhile is_space s)))"

text \<open>\<open>s.startsWith(p)\<close>\<close>

definition startsWith :: "jsstring \<Rightarrow> jsstring \<Rightarrow> bool" where
  "startsWith s p \<longleftrightarrow> take (length p) s = p"

text \<open>\<open>s.includes(p)\<close>: \<open>p\<close> occurs at some position of \<open>s\<close>.\<close>

fun includes_str :: "jsstring \<Rightarrow> jsstring \<Rightarrow> bool" where
  "includes_str [] p \<longleftrightarrow> p = []"
| "includes_str (c # cs) p \<longleftrightarrow> startsWith (c # cs) p \<or> includes_str cs p"

text \<open>\<open>s.substring(1)\<close>\<close>

definition substring1 :: "jsstring \<Rightarrow> jsstring" where
  "substring1 s = drop 1 s"

text \<open>
  \<open>s.split(sep)\<close> for a separator of one code unit: the pieces between the
  occurrences of \<open>sep\<close>; the empty string gives one empty piece, so the result
  is never empty.
\<close>

fun split_on :: "jschar \<Rightarrow> jsstring \<Rightarrow> jsstring list" where
  "split_on sep [] = [[]]"
| "split_on sep (c # cs) =
     (if c = sep then [] # split_on sep cs
      else (let r = split_on sep cs in (c # hd r) # tl r))"

text \<open>\<open>parts.join(sep)\<close> for a separator of one code unit.\<close>

fun join :: "jschar \<Rightarrow> jsstring list \<Rightarrow> jsstring" where
  "join sep [] = []"
| "join sep [p] = p"
| "join sep (p # q # ps) = p @ sep # join sep (q # ps)"

subsection \<open>The regular expressions of the formatter\<close>

text \<open>
  Both anchored expressions of the source are sequences of character classes, each
  taken once, or repeated greedily (\<open>*\<close>, \<open>+\<close>). \<open>match_here\<close> is the
  backtracking matcher at the start of the string (the anchor \<open>^\<close>, without the
  multiline flag): it gives the length of the match, trying the longest repetition
  first.
\<close>

datatype quant = Once | Star | Plus

type_synonym regex = "((jschar \<Rightarrow> bool) \<times> quant) list"

fun match_here :: "regex \<Rightarrow> jsstring \<Rightarrow> nat option" where
  "match_here [] s = Some 0"
| "match_here ((p, Once) # r) [] = None"
| "match_here ((p, Once) # r) (c # cs) =
     (if p c then map_option Suc (match_here r cs) else None)"
| "match_here ((p, Plus) # r) [] = None"
| "match_here ((p, Plus) # r) (c # cs) =
     (if p c then map_option Suc (match_here ((p, Star) # r) cs) else None)"
| "match_here ((p, Star) # r) [] = match_here r []"
| "match_here ((p, Star) # r) (c # cs) =
     (if p c then
        (case match_here ((p, Star) # r) cs of
           Some n \<Rightarrow> Some (Suc n)
         | None \<Rightarrow> match_here r (c # cs))
      else match_here r (c # cs))"

text \<open>\<open>re.test(s)\<close> for an anchored expression.\<close>

definition test :: "regex \<Rightarrow> jsstring \<Rightarrow> bool" where
  "test re s \<longleftrightarrow> match_here re s \<noteq> None"

text \<open>\<open>s.replace(re, '')\<close> for an anchored expression without the global flag.\<close>

definition replace_empty :: "regex \<Rightarrow> jsstring \<Rightarrow> jsstring" where
  "replace_empty re s = (case match_here re s of None \<Rightarrow> s | Some n \<Rightarrow> drop n s)"

text \<open>\<open>/^\d+\./\<close>\<close>

definition header_re :: regex where
  "header_re = [(is_digit, Plus), (is_dot, Once)]"

text \<open>\<open>/^\d+\.\s*/\<close>\<close>

definition header_prefix_re :: regex where
  "header_prefix_re = [(is_digit, Plus), (is_dot, Once), (is_space, Star)]"

text \<open>
  \<open>line.replace(/[*_#`]/g, '')\<close>: every match is one code unit of the class, and
  with the global flag each of them is removed.
\<close>

definition remove_markdown :: "jsstring \<Rightarrow> jsstring" where
  "remove_markdown line = filter (\<lambda>c. \<not> is_markdown c) line"

section \<open>The response formatter\<close>

text \<open>
  The elements that \<open>formatAnalysis\<close> returns, by their kind and their text:
  the \<open>h3\<close> of a section header, the label and value spans of a labelled field
  (the label is displayed followed by a colon), the text span of a bullet item, and a
  paragraph.
\<close>

datatype block =
    SectionHeader jsstring
  | LabeledField jsstring jsstring
  | BulletItem jsstring
  | Paragraph jsstring

text \<open>A React element with its \<open>key\<close>, the index of the line.\<close>

datatype element = Element (key: nat) (block: block)

text \<open>The callback of \<open>map\<close> in \<open>formatAnalysis\<close>; \<open>None\<close> is \<open>null\<close>.\<close>

definition formatLine :: "jsstring \<Rightarrow> nat \<Rightarrow> element option" where
  "formatLine line index =
     (let cleanLine = trim (remove_markdown line) in
      if cleanLine = [] then None
      else if test header_re cleanLine then
        Some (Element index (SectionHeader (replace_empty header_prefix_re cleanLine)))
      else if startsWith cleanLine (js ''-'') \<and> includes_str cleanLine (js '':'') then
        (let parts = split_on colon (substring1 cleanLine);
             label = hd parts;
             valueParts = tl parts;
             val = trim (join colon valueParts)
         in Some (Element index (LabeledField (trim label) val)))
      else if startsWith cleanLine (js ''-'') then
        Some (Element index (BulletItem (trim (substring1 cleanLine))))
      else Some (Element index (Paragraph cleanLine)))"

text \<open>\<open>.filter(Boolean)\<close> on an array of elements and \<open>null\<close>s.\<close>

definition filter_Boolean :: "'a option list \<Rightarrow> 'a list" where
  "filter_Boolean xs = map the (filter (\<lambda>x. x \<noteq> None) xs)"

definition formatAnalysis :: "jsstring \<Rightarrow> element list" where
  "formatAnalysis text =
     filter_Boolean
       (map (\<lambda>(index, line). formatLine line index) (enumerate 0 (split_on newline text)))"

section \<open>The upload and analysis controller\<close>

text \<open>The four state variables of the component \<open>Home\<close>.\<close>

record ui_state =
  image_st :: "jsstring option"
  analysis :: jsstring
  loading :: bool
  error :: "jsstring option"

text \<open>What the handlers read of a \<open>File\<close>: \<open>file.type\<close> and \<open>file.size\<close>.\<close>

record jsfile =
  file_type :: jsstring
  file_size :: nat

text \<open>
  What a handler does, in the order it does it: the calls of the four state setters,
  \<open>reader.readAsDataURL(file)\<close>, the assignment \<open>e.target.value = ''\<close>, and the
  call \<open>analyzeImage(imageData, coinPrompt)\<close>. The first argument of the
  analyzer is \<open>reader.result\<close>, which is \<open>null\<close> (\<open>None\<close>) after a failed
  read.
\<close>

datatype effect =
    SetImage "jsstring option"
  | SetAnalysis jsstring
  | SetLoading bool
  | SetError "jsstring option"
  | ReadAsDataURL jsfile
  | ResetFileInput
  | AnalyzeImage "jsstring option" jsstring

fun apply_effect :: "effect \<Rightarrow> ui_state \<Rightarrow> ui_state" where
  "apply_effect (SetImage v) st = st\<lparr>image_st := v\<rparr>"
| "apply_effect (SetAnalysis v) st = st\<lparr>analysis := v\<rparr>"
| "apply_effect (SetLoading v) st = st\<lparr>loading := v\<rparr>"
| "apply_effect (SetError v) st = st\<lparr>error := v\<rparr>"
| "apply_effect (ReadAsDataURL f) st = st"
| "apply_effect ResetFileInput st = st"
| "apply_effect (AnalyzeImage d p) st = st"

text \<open>The state after a sequence of effects.\<close>

definition exec :: "effect list \<Rightarrow> ui_state \<Rightarrow> ui_state" where
  "exec effs st = fold apply_effect effs st"

text \<open>The calls of the external analyzer among a sequence of effects, with their arguments.\<close>

fun analyzer_calls :: "effect list \<Rightarrow> (jsstring option \<times> jsstring) list" where
  "analyzer_calls [] = []"
| "analyzer_calls (AnalyzeImage d p # effs) = (d, p) # analyzer_calls effs"
| "analyzer_calls (_ # effs) = analyzer_calls effs"

text \<open>
  The external analyzer \<open>analyzeImage\<close> (\<open>../lib/gemini\<close>) is a parameter: the
  promise it returns is fulfilled with a text, rejected with a thrown value, or never
  settled. A thrown value is an instance of \<open>Error\<close>, with its \<open>message\<close> (the
  empty string for \<open>new Error()\<close>), or any other value, with its \<open>message\<close>
  property when it has one (an object \<open>{message: ...}\<close> has, a thrown string has
  not). The handler asks whether the value is an instance of \<open>Error\<close>, and reads the
  message only then.
\<close>

datatype thrown = ErrorInstance jsstring | OtherValue "jsstring option"

datatype outcome = Resolved jsstring | Rejected thrown | Pending

type_synonym analyzer = "jsstring option \<Rightarrow> jsstring \<Rightarrow> outcome"

text \<open>
  The browser's \<open>FileReader\<close> is a parameter too: for a file, the events it fires on
  the two handlers that \<open>handleImageUpload\<close> registers, in order; \<open>LoadEnd\<close>
  carries \<open>reader.result\<close>.
\<close>

datatype reader_event = LoadEnd "jsstring option" | ReadError

type_synonym file_reader = "jsfile \<Rightarrow> reader_event list"

definition coinPrompt :: jsstring where
  "coinPrompt = join newline
     [js ''Analyze this coin image for educational purposes and provide the following information:'',
      js ''1. Coin identification (country, currency, denomination, year, series)'',
      js ''2. Physical characteristics (diameter, thickness, weight, composition, edge, shape)'',
      js ''3. Design elements (obverse, reverse, mint mark, designer, inscriptions)'',
      js ''4. Historical context (significance, mintage, historical period, what it commemorates)'',
      js ''5. Additional information (collectible value, rarity, notable features, grading)'',
      [],
      js ''IMPORTANT: This is for educational purposes only.'']"

text \<open>
  \<open>handleAnalyze\<close>: the effects before the \<open>await\<close>, then those of the
  \<open>try\<close>, \<open>catch\<close> and \<open>finally\<close> blocks once the promise is settled.
\<close>

definition handleAnalyze :: "analyzer \<Rightarrow> jsstring option \<Rightarrow> effect list" where
  "handleAnalyze analyzeImage imageData =
     [SetLoading True, SetError None, AnalyzeImage imageData coinPrompt] @
     (case analyzeImage imageData coinPrompt of
        Resolved result \<Rightarrow> [SetAnalysis result, SetLoading False]
      | Rejected err \<Rightarrow>
          (let errorMessage =
             (case err of
                ErrorInstance message \<Rightarrow> message
              | OtherValue _ \<Rightarrow> js ''Failed to analyze image. Please try again.'')
           in [SetError (Some errorMessage), SetLoading False])
      | Pending \<Rightarrow> [])"

text \<open>The handlers \<open>reader.onloadend\<close> and \<open>reader.onerror\<close>.\<close>

fun reader_handler :: "analyzer \<Rightarrow> reader_event \<Rightarrow> effect list" where
  "reader_handler analyzeImage (LoadEnd base64String) =
     [SetImage base64String, SetError None] @ handleAnalyze analyzeImage base64String"
| "reader_handler analyzeImage ReadError =
     [SetError (Some (js ''Failed to read the image file. Please try again.''))]"

text \<open>
  \<open>handleImageUpload\<close>; the argument is \<open>e.target.files?.[0]\<close>. The handlers of
  the reader run after the handler itself has returned.
\<close>

definition handleImageUpload ::
  "file_reader \<Rightarrow> analyzer \<Rightarrow> jsfile option \<Rightarrow> effect list" where
  "handleImageUpload readAsDataURL analyzeImage e =
     (case e of
        None \<Rightarrow> []
      | Some file \<Rightarrow>
          if \<not> startsWith (file_type file) (js ''image/'') then
            [SetError (Some (js ''Please upload a valid image file''))]
          else if file_size file > 20 * 1024 * 1024 then
            [SetError (Some (js ''Image size should be less than 20MB''))]
          else
            [ReadAsDataURL file, ResetFileInput] @
            concat (map (reader_handler analyzeImage) (readAsDataURL file)))"

section \<open>Properties of the string operations\<close>

lemma split_on_not_Nil: "split_on sep s \<noteq> []"
  by (induction s) (simp_all add: Let_def)

lemma hd_split_on: "hd (split_on sep s) = takeWhile (\<lambda>c. c \<noteq> sep) s"
  by (induction s) (simp_all add: Let_def)

lemma join_Cons: "join sep (p # ps) = (if ps = [] then p else p @ sep # join sep ps)"
  by (cases ps) simp_all

lemma join_split_on: "join sep (split_on sep s) = s"
proof (induction s)
  case Nil
  show ?case by simp
next
  case (Cons c cs)
  obtain p ps where r: "split_on sep cs = p # ps"
    using split_on_not_Nil [of sep cs] by (cases "split_on sep cs") auto
  with Cons show ?case by (auto simp: join_Cons Let_def)
qed

lemma tl_split_on:
  "sep \<in> set s \<Longrightarrow> tl (split_on sep s) = split_on sep (tl (dropWhile (\<lambda>c. c \<noteq> sep) s))"
  by (induction s) (auto simp: Let_def)

lemma tl_split_on_notin: "sep \<notin> set s \<Longrightarrow> tl (split_on sep s) = []"
  by (induction s) (auto simp: Let_def)

lemma join_tl_split_on:
  "sep \<in> set s \<Longrightarrow> join sep (tl (split_on sep s)) = tl (dropWhile (\<lambda>c. c \<noteq> sep) s)"
  by (simp add: tl_split_on join_split_on)

lemma js_dash: "js ''-'' = [dash]"
  by (simp add: js_def dash_def)

lemma js_colon: "js '':'' = [colon]"
  by (simp add: js_def colon_def)

lemma startsWith_single: "startsWith s [c] \<longleftrightarrow> (\<exists>t. s = c # t)"
  by (cases s) (auto simp: startsWith_def)

lemma includes_single: "includes_str s [c] \<longleftrightarrow> c \<in> set s"
  by (induction s) (auto simp: startsWith_def)

lemma not_digit_dot: "\<not> is_digit dot"
  by (simp add: is_digit_def dot_def)

lemma not_digit_dash: "\<not> is_digit dash"
  by (simp add: is_digit_def dash_def)

lemma match_star_space: "match_here [(is_space, Star)] s = Some (length (takeWhile is_space s))"
  by (induction s) simp_all

lemma match_dot_space:
  "match_here [(is_dot, Once), (is_space, Star)] s =
     (case s of [] \<Rightarrow> None | c # cs \<Rightarrow> if c = dot then Some (Suc (length (takeWhile is_space cs))) else None)"
  by (cases s) (simp_all add: match_star_space is_dot_def)

lemma match_dot: 
  "match_here [(is_dot, Once)] s =
     (case s of [] \<Rightarrow> None | c # cs \<Rightarrow> if c = dot then Some 1 else None)"
  by (cases s) (simp_all add: is_dot_def)

lemma match_digits_star:
  assumes "\<And>c cs. is_digit c \<Longrightarrow> match_here r (c # cs) = None"
  shows "match_here ((is_digit, Star) # r) s =
     (case match_here r (dropWhile is_digit s) of
        None \<Rightarrow> None
      | Some n \<Rightarrow> Some (length (takeWhile is_digit s) + n))"
  using assms by (induction s) (auto split: option.splits)

lemma match_digits_plus:
  assumes "\<And>c cs. is_digit c \<Longrightarrow> match_here r (c # cs) = None"
  shows "match_here ((is_digit, Plus) # r) s =
     (if takeWhile is_digit s = [] then None
      else case match_here r (dropWhile is_digit s) of
        None \<Rightarrow> None
      | Some n \<Rightarrow> Some (length (takeWhile is_digit s) + n))"
  using assms by (cases s) (auto simp: match_digits_star split: option.splits)

lemma header_tail:
  "(if ds = [] then None
    else case match_here [(is_dot, Once)] t of
      None \<Rightarrow> None
    | Some n \<Rightarrow> Some (length ds + n)) =
   (if ds \<noteq> [] \<and> take 1 t = [dot] then Some (Suc (length ds)) else None)"
  by (cases t) (simp_all add: is_dot_def)

lemma header_prefix_tail:
  "(if ds = [] then None
    else case match_here [(is_dot, Once), (is_space, Star)] t of
      None \<Rightarrow> None
    | Some n \<Rightarrow> Some (length ds + n)) =
   (if ds \<noteq> [] \<and> take 1 t = [dot]
    then Some (Suc (length ds) + length (takeWhile is_space (drop 1 t))) else None)"
  by (cases t) (simp_all add: is_dot_def match_star_space)

lemma match_header_re:
  "match_here header_re s =
     (if takeWhile is_digit s \<noteq> [] \<and> take 1 (dropWhile is_digit s) = [dot]
      then Some (Suc (length (takeWhile is_digit s))) else None)"
proof -
  have "match_here [(is_dot, Once)] (c # cs) = None" if "is_digit c" for c cs
    using that not_digit_dot by (auto simp: is_dot_def)
  then have "match_here header_re s =
     (if takeWhile is_digit s = [] then None
      else case match_here [(is_dot, Once)] (dropWhile is_digit s) of
        None \<Rightarrow> None
      | Some n \<Rightarrow> Some (length (takeWhile is_digit s) + n))"
    unfolding header_re_def by (rule match_digits_plus)
  also have "\<dots> = (if takeWhile is_digit s \<noteq> [] \<and> take 1 (dropWhile is_digit s) = [dot]
      then Some (Suc (length (takeWhile is_digit s))) else None)"
    by (rule header_tail)
  finally show ?thesis .
qed

lemma match_header_prefix_re:
  "match_here header_prefix_re s =
     (if takeWhile is_digit s \<noteq> [] \<and> take 1 (dropWhile is_digit s) = [dot]
      then Some (Suc (length (takeWhile is_digit s))
                 + length (takeWhile is_space (drop 1 (dropWhile is_digit s))))
      else None)"
proof -
  have "match_here [(is_dot, Once), (is_space, Star)] (c # cs) = None" if "is_digit c" for c cs
    using that not_digit_dot by (auto simp: is_dot_def)
  then have "match_here header_prefix_re s =
     (if takeWhile is_digit s = [] then None
      else case match_here [(is_dot, Once), (is_space, Star)] (dropWhile is_digit s) of
        None \<Rightarrow> None
      | Some n \<Rightarrow> Some (length (takeWhile is_digit s) + n))"
    unfolding header_prefix_re_def by (rule match_digits_plus)
  also have "\<dots> = (if takeWhile is_digit s \<noteq> [] \<and> take 1 (dropWhile is_digit s) = [dot]
      then Some (Suc (length (takeWhile is_digit s))
                 + length (takeWhile is_space (drop 1 (dropWhile is_digit s))))
      else None)"
    by (rule header_prefix_tail)
  finally show ?thesis .
qed

lemma test_header_re:
  "test header_re s \<longleftrightarrow>
     (\<exists>ds rest. ds \<noteq> [] \<and> (\<forall>d \<in> set ds. is_digit d) \<and> s = ds @ dot # rest)"
proof
  assume "test header_re s"
  then have a: "takeWhile is_digit s \<noteq> []" and b: "take 1 (dropWhile is_digit s) = [dot]"
    by (auto simp: test_def match_header_re split: if_splits)
  from b obtain rest where "dropWhile is_digit s = dot # rest"
    by (cases "dropWhile is_digit s") auto
  then have "s = takeWhile is_digit s @ dot # rest"
    by (metis takeWhile_dropWhile_id)
  with a show "\<exists>ds rest. ds \<noteq> [] \<and> (\<forall>d \<in> set ds. is_digit d) \<and> s = ds @ dot # rest"
    by (metis set_takeWhileD)
next
  assume "\<exists>ds rest. ds \<noteq> [] \<and> (\<forall>d \<in> set ds. is_digit d) \<and> s = ds @ dot # rest"
  then obtain ds rest where ds: "ds \<noteq> []" "\<forall>d \<in> set ds. is_digit d" and s: "s = ds @ dot # rest"
    by blast
  have "takeWhile is_digit s = ds" "dropWhile is_digit s = dot # rest"
    using ds not_digit_dot by (simp_all add: s)
  then show "test header_re s"
    using ds by (simp add: test_def match_header_re)
qed

section \<open>Properties of the formatter\<close>

lemma filter_Boolean_set: "set (filter_Boolean xs) = {x. Some x \<in> set xs}"
  by (force simp: filter_Boolean_def image_iff)

lemma enumerate_map_conv:
  "map (\<lambda>(index, line). f line index) (enumerate 0 xs) = map (\<lambda>i. f (xs ! i) i) [0..<length xs]"
  by (rule nth_equalityI) (simp_all add: nth_enumerate_eq)

lemma formatAnalysis_upt:
  "formatAnalysis text =
     filter_Boolean (map (\<lambda>i. formatLine (split_on newline text ! i) i)
       [0..<length (split_on newline text)])"
  by (simp add: formatAnalysis_def enumerate_map_conv)

lemma key_formatLine: "formatLine line i = Some e \<Longrightarrow> key e = i"
  by (auto simp: formatLine_def Let_def split: if_splits)

lemma formatLine_None_iff: "formatLine line i = None \<longleftrightarrow> trim (remove_markdown line) = []"
  by (simp add: formatLine_def Let_def)

lemma elements_with_key:
  assumes "i < length (split_on newline text)"
    and "formatLine (split_on newline text ! i) i = Some e"
  shows "{x \<in> set (formatAnalysis text). key x = i} = {e}"
proof -
  have "x \<in> set (formatAnalysis text) \<and> key x = i \<longleftrightarrow> x = e" for x
  proof
    assume a: "x \<in> set (formatAnalysis text) \<and> key x = i"
    then obtain j where "formatLine (split_on newline text ! j) j = Some x"
      by (auto simp: formatAnalysis_upt filter_Boolean_set)
    moreover from this a have "j = i" using key_formatLine by blast
    ultimately show "x = e" using assms(2) by simp
  next
    assume "x = e"
    then show "x \<in> set (formatAnalysis text) \<and> key x = i"
      using assms key_formatLine [OF assms(2)]
      by (force simp: formatAnalysis_upt filter_Boolean_set)
  qed
  then show ?thesis by blast
qed

lemma no_element_with_key:
  assumes "formatLine (split_on newline text ! i) i = None"
  shows "{x \<in> set (formatAnalysis text). key x = i} = {}"
proof -
  have False if "x \<in> set (formatAnalysis text)" "key x = i" for x
  proof -
    from that(1) obtain j where j: "formatLine (split_on newline text ! j) j = Some x"
      by (auto simp: formatAnalysis_upt filter_Boolean_set)
    with that(2) have "j = i" using key_formatLine by blast
    with j assms show False by simp
  qed
  then show ?thesis by blast
qed

lemma not_header_dash: "\<not> test header_re (dash # rest)"
  by (simp add: test_def match_header_re not_digit_dash)

lemma formatLine_header:
  assumes "trim (remove_markdown line) = ds @ dot # rest" "ds \<noteq> []" "\<forall>d \<in> set ds. is_digit d"
  shows "formatLine line i = Some (Element i (SectionHeader (dropWhile is_space rest)))"
proof -
  let ?s = "ds @ dot # rest"
  have tk: "takeWhile is_digit ?s = ds" and dr: "dropWhile is_digit ?s = dot # rest"
    using assms(3) not_digit_dot by simp_all
  have "test header_re ?s"
    using assms(2,3) test_header_re by blast
  moreover have "replace_empty header_prefix_re ?s = dropWhile is_space rest"
    using assms(2) by (simp add: replace_empty_def match_header_prefix_re tk dr dropWhile_eq_drop)
  ultimately show ?thesis
    using assms(1,2) by (simp add: formatLine_def)
qed

lemma formatLine_labeled:
  assumes "trim (remove_markdown line) = dash # rest" "colon \<in> set rest"
  shows "formatLine line i =
    Some (Element i (LabeledField (trim (takeWhile (\<lambda>c. c \<noteq> colon) rest))
                                  (trim (tl (dropWhile (\<lambda>c. c \<noteq> colon) rest)))))"
  using assms
  by (simp add: formatLine_def not_header_dash js_dash js_colon startsWith_single
      includes_single substring1_def hd_split_on join_tl_split_on)

lemma formatLine_bullet:
  assumes "trim (remove_markdown line) = dash # rest" "colon \<notin> set rest"
  shows "formatLine line i = Some (Element i (BulletItem (trim rest)))"
proof -
  have "dash \<noteq> colon" by (simp add: dash_def colon_def)
  then show ?thesis
    using assms
    by (simp add: formatLine_def not_header_dash js_dash js_colon startsWith_single
      includes_single substring1_def)
qed

lemma map_key_filter_Boolean:
  assumes "\<And>i e. f i = Some e \<Longrightarrow> key e = i"
  shows "map key (filter_Boolean (map f ns)) = filter (\<lambda>i. f i \<noteq> None) ns"
  using assms by (induction ns) (auto simp: filter_Boolean_def)

lemma keys_formatAnalysis:
  "map key (formatAnalysis text) =
     filter (\<lambda>i. trim (remove_markdown (split_on newline text ! i)) \<noteq> [])
       [0..<length (split_on newline text)]"
  unfolding formatAnalysis_upt
  by (subst map_key_filter_Boolean) (auto simp: key_formatLine formatLine_None_iff)

lemma length_filter_nth:
  "length (filter (\<lambda>i. P (xs ! i)) [0..<length xs]) = length (filter P xs)"
proof -
  have "filter P xs = filter P (map ((!) xs) [0..<length xs])"
    by (simp only: map_nth)
  also have "\<dots> = map ((!) xs) (filter (P \<circ> (!) xs) [0..<length xs])"
    by (simp only: filter_map)
  finally show ?thesis by (simp add: comp_def)
qed

lemma length_formatAnalysis:
  "length (formatAnalysis text) =
     length (filter (\<lambda>line. trim (remove_markdown line) \<noteq> []) (split_on newline text))"
proof -
  have "length (formatAnalysis text) = length (map key (formatAnalysis text))" by simp
  also have "\<dots> = length (filter (\<lambda>i. trim (remove_markdown (split_on newline text ! i)) \<noteq> [])
       [0..<length (split_on newline text)])"
    by (simp only: keys_formatAnalysis)
  also have "\<dots> = length (filter (\<lambda>line. trim (remove_markdown line) \<noteq> []) (split_on newline text))"
    by (rule length_filter_nth)
  finally show ?thesis .
qed

section \<open>Properties of the controller\<close>

lemma exec_Nil: "exec [] st = st"
  by (simp add: exec_def)

lemma exec_Cons: "exec (eff # effs) st = exec effs (apply_effect eff st)"
  by (simp add: exec_def)

lemma exec_append: "exec (xs @ ys) st = exec ys (exec xs st)"
  by (simp add: exec_def)

lemma analyzer_calls_append: "analyzer_calls (xs @ ys) = analyzer_calls xs @ analyzer_calls ys"
  by (induction xs rule: analyzer_calls.induct) simp_all

lemma analyzer_calls_handleAnalyze:
  "analyzer_calls (handleAnalyze analyzeImage imageData) = [(imageData, coinPrompt)]"
  by (simp add: handleAnalyze_def Let_def split: outcome.split)

section \<open>The claims\<close>

text \<open>
  Claim C1. A line whose cleaned form (the characters \<open>* _ # `\<close> removed, then
  trimmed) starts with \<open>-\<close> and contains a \<open>:\<close> gives exactly one element, with
  the index of the line as key: a labelled field whose label is the text between the
  leading \<open>-\<close> and the first \<open>:\<close>, trimmed, and whose value is everything after
  the first \<open>:\<close>, further colons included, trimmed.
\<close>

theorem labeled_field_block:
  assumes "i < length (split_on newline text)"
    and "trim (remove_markdown (split_on newline text ! i)) = dash # rest"
    and "colon \<in> set (dash # rest)"
  shows "{e \<in> set (formatAnalysis text). key e = i} =
     {Element i (LabeledField (trim (takeWhile (\<lambda>c. c \<noteq> colon) rest))
                              (trim (tl (dropWhile (\<lambda>c. c \<noteq> colon) rest))))}"
proof -
  have "dash \<noteq> colon" by (simp add: dash_def colon_def)
  with assms(3) have "colon \<in> set rest" by simp
  from formatLine_labeled [OF assms(2) this] show ?thesis
    by (rule elements_with_key [OF assms(1)])
qed

theorem labeled_field_block_witness:
  "1 < length (split_on newline (js ''1. Coin Identification:'' @ newline # js ''- Country: United States''))
   \<and> trim (remove_markdown
        (split_on newline (js ''1. Coin Identification:'' @ newline # js ''- Country: United States'') ! 1))
       = dash # js '' Country: United States''
   \<and> colon \<in> set (dash # js '' Country: United States'')
   \<and> {e \<in> set (formatAnalysis (js ''1. Coin Identification:'' @ newline # js ''- Country: United States'')).
         key e = 1}
       = {Element 1 (LabeledField (js ''Country'') (js ''United States''))}"
proof -
  let ?text = "js ''1. Coin Identification:'' @ newline # js ''- Country: United States''"
  let ?rest = "js '' Country: United States''"
  have h1: "1 < length (split_on newline ?text)" by code_simp
  have h2: "trim (remove_markdown (split_on newline ?text ! 1)) = dash # ?rest" by code_simp
  have h3: "colon \<in> set (dash # ?rest)" by code_simp
  have l: "trim (takeWhile (\<lambda>c. c \<noteq> colon) ?rest) = js ''Country''" by code_simp
  have v: "trim (tl (dropWhile (\<lambda>c. c \<noteq> colon) ?rest)) = js ''United States''" by code_simp
  note c = labeled_field_block [OF h1 h2 h3, unfolded l v]
  show ?thesis
    by (intro conjI) (rule h1 h2 h3 c)+
qed

text \<open>
  Claim C2. A line whose cleaned form is one or more digits, a period and a rest matches
  \<open>/^\d+\./\<close> and gives exactly one element, a section header whose title is the
  rest without its leading white space.
\<close>

theorem section_header_block:
  assumes "i < length (split_on newline text)"
    and "trim (remove_markdown (split_on newline text ! i)) = ds @ dot # rest"
    and "ds \<noteq> []" and "\<forall>d \<in> set ds. is_digit d"
  shows "test header_re (ds @ dot # rest)
     \<and> {e \<in> set (formatAnalysis text). key e = i} =
         {Element i (SectionHeader (dropWhile is_space rest))}"
proof -
  have "test header_re (ds @ dot # rest)"
    unfolding test_header_re
    by (rule exI [of _ ds], rule exI [of _ rest]) (simp add: assms(3,4))
  moreover from formatLine_header [OF assms(2,3,4)]
  have "{e \<in> set (formatAnalysis text). key e = i} =
         {Element i (SectionHeader (dropWhile is_space rest))}"
    by (rule elements_with_key [OF assms(1)])
  ultimately show ?thesis by (rule conjI)
qed

theorem section_header_block_witness:
  "0 < length (split_on newline (js ''1. Coin Identification:''))
   \<and> trim (remove_markdown (split_on newline (js ''1. Coin Identification:'') ! 0))
       = js ''1'' @ dot # js '' Coin Identification:''
   \<and> js ''1'' \<noteq> [] \<and> list_all is_digit (js ''1'')
   \<and> {e \<in> set (formatAnalysis (js ''1. Coin Identification:'')). key e = 0}
       = {Element 0 (SectionHeader (js ''Coin Identification:''))}"
proof -
  let ?text = "js ''1. Coin Identification:''"
  have h1: "0 < length (split_on newline ?text)" by code_simp
  have h2: "trim (remove_markdown (split_on newline ?text ! 0))
       = js ''1'' @ dot # js '' Coin Identification:''" by code_simp
  have h3: "js ''1'' \<noteq> []" by code_simp
  have h4: "\<forall>d \<in> set (js ''1''). is_digit d" by code_simp
  have t: "dropWhile is_space (js '' Coin Identification:'') = js ''Coin Identification:''"
    by code_simp
  have h4': "list_all is_digit (js ''1'')"
    using h4 by (simp only: list_all_iff)
  note c = section_header_block [OF h1 h2 h3 h4, unfolded t, THEN conjunct2]
  show ?thesis
    by (intro conjI) (rule h1 h2 h3 h4' c)+
qed

text \<open>
  Claim C3. A line whose cleaned form starts with \<open>-\<close> does not match
  \<open>/^\d+\./\<close>; without a \<open>:\<close> it gives exactly one element, a bullet item with
  the text after the \<open>-\<close>, trimmed; with a \<open>:\<close> no bullet item is emitted for
  it.
\<close>

theorem bullet_item_block:
  assumes "i < length (split_on newline text)"
    and "trim (remove_markdown (split_on newline text ! i)) = dash # rest"
  shows "\<not> test header_re (dash # rest)
     \<and> (colon \<notin> set (dash # rest) \<longrightarrow>
          {e \<in> set (formatAnalysis text). key e = i} = {Element i (BulletItem (trim rest))})
     \<and> (colon \<in> set (dash # rest) \<longrightarrow>
          (\<forall>t. Element i (BulletItem t) \<notin> set (formatAnalysis text)))"
proof -
  have neq: "dash \<noteq> colon" by (simp add: dash_def colon_def)
  have a: "{e \<in> set (formatAnalysis text). key e = i} = {Element i (BulletItem (trim rest))}"
    if "colon \<notin> set (dash # rest)"
  proof -
    from that have "colon \<notin> set rest" by simp
    from formatLine_bullet [OF assms(2) this] show ?thesis
      by (rule elements_with_key [OF assms(1)])
  qed
  have b: "Element i (BulletItem t) \<notin> set (formatAnalysis text)"
    if "colon \<in> set (dash # rest)" for t
  proof
    assume m: "Element i (BulletItem t) \<in> set (formatAnalysis text)"
    from that neq have "colon \<in> set rest" by simp
    from formatLine_labeled [OF assms(2) this]
    have "{e \<in> set (formatAnalysis text). key e = i} =
      {Element i (LabeledField (trim (takeWhile (\<lambda>c. c \<noteq> colon) rest))
                              (trim (tl (dropWhile (\<lambda>c. c \<noteq> colon) rest))))}"
      by (rule elements_with_key [OF assms(1)])
    moreover from m have "Element i (BulletItem t) \<in> {e \<in> set (formatAnalysis text). key e = i}"
      by simp
    ultimately show False by simp
  qed
  show ?thesis
  proof (intro conjI impI allI)
    show "\<not> test header_re (dash # rest)"
      by (rule not_header_dash)
  next
    assume "colon \<notin> set (dash # rest)"
    then show "{e \<in> set (formatAnalysis text). key e = i} = {Element i (BulletItem (trim rest))}"
      by (rule a)
  next
    fix t
    assume "colon \<in> set (dash # rest)"
    then show "Element i (BulletItem t) \<notin> set (formatAnalysis text)"
      by (rule b)
  qed
qed

theorem bullet_item_block_witness:
  "0 < length (split_on newline (js ''- Reeded (ridged)''))
   \<and> trim (remove_markdown (split_on newline (js ''- Reeded (ridged)'') ! 0))
       = dash # js '' Reeded (ridged)''
   \<and> colon \<notin> set (dash # js '' Reeded (ridged)'')
   \<and> {e \<in> set (formatAnalysis (js ''- Reeded (ridged)'')). key e = 0}
       = {Element 0 (BulletItem (js ''Reeded (ridged)''))}
   \<and> 0 < length (split_on newline (js ''- Edge: Reeded''))
   \<and> trim (remove_markdown (split_on newline (js ''- Edge: Reeded'') ! 0))
       = dash # js '' Edge: Reeded''
   \<and> colon \<in> set (dash # js '' Edge: Reeded'')
   \<and> (\<forall>t. Element 0 (BulletItem t) \<notin> set (formatAnalysis (js ''- Edge: Reeded'')))"
proof -
  let ?t1 = "js ''- Reeded (ridged)''" and ?r1 = "js '' Reeded (ridged)''"
  let ?t2 = "js ''- Edge: Reeded''" and ?r2 = "js '' Edge: Reeded''"
  have a1: "0 < length (split_on newline ?t1)" by code_simp
  have a2: "trim (remove_markdown (split_on newline ?t1 ! 0)) = dash # ?r1" by code_simp
  have a3: "colon \<notin> set (dash # ?r1)" by code_simp
  have a4: "trim ?r1 = js ''Reeded (ridged)''" by code_simp
  have b1: "0 < length (split_on newline ?t2)" by code_simp
  have b2: "trim (remove_markdown (split_on newline ?t2 ! 0)) = dash # ?r2" by code_simp
  have b3: "colon \<in> set (dash # ?r2)" by code_simp
  note c1 = bullet_item_block [OF a1 a2, unfolded a4, THEN conjunct2, THEN conjunct1, THEN mp, OF a3]
  note c2 = bullet_item_block [OF b1 b2, THEN conjunct2, THEN conjunct2, THEN mp, OF b3]
  show ?thesis
    by (intro conjI) (rule a1 a2 a3 c1 b1 b2 b3 c2)+
qed

text \<open>
  Claim C4. The keys of the elements of \<open>formatAnalysis text\<close> are the indices of
  the lines that are not empty after cleaning, each once and in increasing order; so
  there are as many elements as such lines, and a line that is empty after cleaning
  gives no element.
\<close>

theorem one_block_per_nonempty_line:
  "map key (formatAnalysis text) =
     filter (\<lambda>i. trim (remove_markdown (split_on newline text ! i)) \<noteq> [])
       [0..<length (split_on newline text)]
   \<and> length (formatAnalysis text) =
     length (filter (\<lambda>line. trim (remove_markdown line) \<noteq> []) (split_on newline text))
   \<and> sorted_wrt (<) (map key (formatAnalysis text))
   \<and> (\<forall>i < length (split_on newline text).
        trim (remove_markdown (split_on newline text ! i)) = [] \<longrightarrow>
        {e \<in> set (formatAnalysis text). key e = i} = {})"
proof -
  have "sorted_wrt (<) (map key (formatAnalysis text))"
    unfolding keys_formatAnalysis by (rule sorted_wrt_filter) (rule sorted_wrt_upt)
  moreover have "{e \<in> set (formatAnalysis text). key e = i} = {}"
    if "trim (remove_markdown (split_on newline text ! i)) = []" for i
    using that by (intro no_element_with_key) (simp add: formatLine_None_iff)
  ultimately show ?thesis
    by (intro conjI allI impI) (rule keys_formatAnalysis length_formatAnalysis | assumption)+
qed

theorem one_block_per_nonempty_line_witness:
  "map key (formatAnalysis (js ''2. Physical Characteristics:'' @ newline # js '' ** '' @ newline # js ''- Shape: Round''))
     = [0, 2]
   \<and> length (formatAnalysis (js ''2. Physical Characteristics:'' @ newline # js '' ** '' @ newline # js ''- Shape: Round'')) = 2
   \<and> 1 < length (split_on newline (js ''2. Physical Characteristics:'' @ newline # js '' ** '' @ newline # js ''- Shape: Round''))
   \<and> trim (remove_markdown (split_on newline (js ''2. Physical Characteristics:'' @ newline # js '' ** '' @ newline # js ''- Shape: Round'') ! 1)) = []
   \<and> {e \<in> set (formatAnalysis (js ''2. Physical Characteristics:'' @ newline # js '' ** '' @ newline # js ''- Shape: Round'')). key e = 1} = {}"
proof -
  let ?text = "js ''2. Physical Characteristics:'' @ newline # js '' ** '' @ newline # js ''- Shape: Round''"
  have k: "filter (\<lambda>i. trim (remove_markdown (split_on newline ?text ! i)) \<noteq> [])
       [0..<length (split_on newline ?text)] = [0, 2]" by code_simp
  have n: "length (filter (\<lambda>line. trim (remove_markdown line) \<noteq> []) (split_on newline ?text)) = 2"
    by code_simp
  have h1: "1 < length (split_on newline ?text)" by code_simp
  have h2: "trim (remove_markdown (split_on newline ?text ! 1)) = []" by code_simp
  note c = one_block_per_nonempty_line [of ?text, unfolded k n]
  note c1 = c [THEN conjunct1]
  note c2 = c [THEN conjunct2, THEN conjunct1]
  note c4 = c [THEN conjunct2, THEN conjunct2, THEN conjunct2, rule_format, OF h1 h2]
  show ?thesis
    by (intro conjI) (rule c1 c2 h1 h2 c4)+
qed

text \<open>
  Claim C6, as amended. When the promise of the analyzer is settled, \<open>loading\<close> is
  false after \<open>handleAnalyze\<close>, whether it was fulfilled or rejected. Rejected with
  an instance of \<open>Error\<close>, the error state is its message, unchanged, the empty
  message included; rejected with any other value, whether or not that value carries
  a message, it is the fixed fallback message.
\<close>

theorem analyze_settled:
  assumes "analyzeImage imageData coinPrompt = out" and "out \<noteq> Pending"
  shows "\<not> loading (exec (handleAnalyze analyzeImage imageData) st)
     \<and> (\<forall>message. out = Rejected (ErrorInstance message) \<longrightarrow>
           error (exec (handleAnalyze analyzeImage imageData) st) = Some message)
     \<and> (\<forall>carried. out = Rejected (OtherValue carried) \<longrightarrow>
           error (exec (handleAnalyze analyzeImage imageData) st) =
             Some (js ''Failed to analyze image. Please try again.''))"
proof (cases out)
  case (Resolved result)
  with assms(1) show ?thesis
    by (simp add: handleAnalyze_def exec_Cons exec_Nil)
next
  case (Rejected err)
  with assms(1) show ?thesis
    by (cases err) (simp_all add: handleAnalyze_def exec_Cons exec_Nil)
next
  case Pending
  with assms(2) show ?thesis by simp
qed

theorem analyze_settled_witness:
  "(\<lambda>_ _. Rejected (ErrorInstance (js ''quota exceeded''))) (Some (js ''data:image/png;base64,AA'')) coinPrompt
       = Rejected (ErrorInstance (js ''quota exceeded''))
   \<and> Rejected (ErrorInstance (js ''quota exceeded'')) \<noteq> Pending
   \<and> \<not> loading (exec (handleAnalyze (\<lambda>_ _. Rejected (ErrorInstance (js ''quota exceeded'')))
          (Some (js ''data:image/png;base64,AA'')))
          \<lparr>image_st = None, analysis = [], loading = False, error = None\<rparr>)
   \<and> error (exec (handleAnalyze (\<lambda>_ _. Rejected (ErrorInstance (js ''quota exceeded'')))
          (Some (js ''data:image/png;base64,AA'')))
          \<lparr>image_st = None, analysis = [], loading = False, error = None\<rparr>)
       = Some (js ''quota exceeded'')
   \<and> (\<lambda>_ _. Rejected (OtherValue None)) (Some (js ''data:image/png;base64,AA'')) coinPrompt
       = Rejected (OtherValue None)
   \<and> Rejected (OtherValue None) \<noteq> Pending
   \<and> \<not> loading (exec (handleAnalyze (\<lambda>_ _. Rejected (OtherValue None))
          (Some (js ''data:image/png;base64,AA'')))
          \<lparr>image_st = None, analysis = [], loading = False, error = None\<rparr>)
   \<and> error (exec (handleAnalyze (\<lambda>_ _. Rejected (OtherValue None))
          (Some (js ''data:image/png;base64,AA'')))
          \<lparr>image_st = None, analysis = [], loading = False, error = None\<rparr>)
       = Some (js ''Failed to analyze image. Please try again.'')"
proof -
  let ?quota = "(\<lambda>_ _. Rejected (ErrorInstance (js ''quota exceeded''))) :: analyzer"
  let ?other = "(\<lambda>_ _. Rejected (OtherValue None)) :: analyzer"
  let ?uri = "Some (js ''data:image/png;base64,AA'')"
  let ?st = "\<lparr>image_st = None, analysis = [], loading = False, error = None\<rparr>"
  have a1: "?quota ?uri coinPrompt = Rejected (ErrorInstance (js ''quota exceeded''))"
    by simp
  have a2: "Rejected (ErrorInstance (js ''quota exceeded'')) \<noteq> Pending"
    by simp
  have b1: "?other ?uri coinPrompt = Rejected (OtherValue None)"
    by simp
  have b2: "Rejected (OtherValue None) \<noteq> Pending"
    by simp
  note a = analyze_settled [where analyzeImage = ?quota and imageData = ?uri and st = ?st, OF a1 a2]
  note b = analyze_settled [where analyzeImage = ?other and imageData = ?uri and st = ?st, OF b1 b2]
  note a3 = a [THEN conjunct1]
  note a4 = a [THEN conjunct2, THEN conjunct1, rule_format, OF refl]
  note b3 = b [THEN conjunct1]
  note b4 = b [THEN conjunct2, THEN conjunct2, rule_format, OF refl]
  show ?thesis
    by (intro conjI) (rule a1 a2 a3 a4 b1 b2 b3 b4)+
qed

text \<open>
  The claim as it was worded, the message verbatim and the fallback only for an error
  that carries no message, fails on a thrown value that is not an instance of
  \<open>Error\<close> and carries the message \<open>quota exceeded\<close>: the error state is the
  fallback, not that message. And for \<open>new Error()\<close>, whose message is empty, the
  error state is the empty string, not the fallback.
\<close>

theorem analyze_message_counterexample:
  "error (exec (handleAnalyze (\<lambda>_ _. Rejected (OtherValue (Some (js ''quota exceeded''))))
          (Some (js ''data:image/png;base64,AA'')))
          \<lparr>image_st = None, analysis = [], loading = False, error = None\<rparr>)
       = Some (js ''Failed to analyze image. Please try again.'')
   \<and> error (exec (handleAnalyze (\<lambda>_ _. Rejected (OtherValue (Some (js ''quota exceeded''))))
          (Some (js ''data:image/png;base64,AA'')))
          \<lparr>image_st = None, analysis = [], loading = False, error = None\<rparr>)
       \<noteq> Some (js ''quota exceeded'')
   \<and> error (exec (handleAnalyze (\<lambda>_ _. Rejected (ErrorInstance []))
          (Some (js ''data:image/png;base64,AA'')))
          \<lparr>image_st = None, analysis = [], loading = False, error = None\<rparr>)
       = Some []
   \<and> error (exec (handleAnalyze (\<lambda>_ _. Rejected (ErrorInstance []))
          (Some (js ''data:image/png;base64,AA'')))
          \<lparr>image_st = None, analysis = [], loading = False, error = None\<rparr>)
       \<noteq> Some (js ''Failed to analyze image. Please try again.'')"
  by (simp add: handleAnalyze_def exec_Cons exec_Nil js_def)

text \<open>
  Claim C7. For a file whose type starts with \<open>image/\<close>, \<open>handleImageUpload\<close>
  does nothing but set the size error exactly when \<open>file.size > 20 * 1024 * 1024\<close>;
  then the analyzer is not called. A file within the limit passes: the read is
  started.
\<close>

theorem upload_size_check:
  assumes "startsWith (file_type file) (js ''image/'')"
  shows "(handleImageUpload readAsDataURL analyzeImage (Some file) =
            [SetError (Some (js ''Image size should be less than 20MB''))]
          \<longleftrightarrow> file_size file > 20 * 1024 * 1024)
     \<and> (file_size file > 20 * 1024 * 1024 \<longrightarrow>
          analyzer_calls (handleImageUpload readAsDataURL analyzeImage (Some file)) = [])
     \<and> (file_size file \<le> 20 * 1024 * 1024 \<longrightarrow>
          take 2 (handleImageUpload readAsDataURL analyzeImage (Some file)) =
            [ReadAsDataURL file, ResetFileInput])"
  using assms by (simp add: handleImageUpload_def)

theorem upload_size_check_witness:
  "startsWith (file_type \<lparr>file_type = js ''image/png'', file_size = 25 * 1024 * 1024\<rparr>) (js ''image/'')
   \<and> handleImageUpload (\<lambda>_. [LoadEnd (Some (js ''data:image/png;base64,AA''))])
         (\<lambda>_ _. Resolved (js ''ok''))
         (Some \<lparr>file_type = js ''image/png'', file_size = 25 * 1024 * 1024\<rparr>)
       = [SetError (Some (js ''Image size should be less than 20MB''))]
   \<and> analyzer_calls (handleImageUpload (\<lambda>_. [LoadEnd (Some (js ''data:image/png;base64,AA''))])
         (\<lambda>_ _. Resolved (js ''ok''))
         (Some \<lparr>file_type = js ''image/png'', file_size = 25 * 1024 * 1024\<rparr>)) = []
   \<and> startsWith (file_type \<lparr>file_type = js ''image/png'', file_size = 20 * 1024 * 1024\<rparr>) (js ''image/'')
   \<and> handleImageUpload (\<lambda>_. [LoadEnd (Some (js ''data:image/png;base64,AA''))])
         (\<lambda>_ _. Resolved (js ''ok''))
         (Some \<lparr>file_type = js ''image/png'', file_size = 20 * 1024 * 1024\<rparr>)
       \<noteq> [SetError (Some (js ''Image size should be less than 20MB''))]
   \<and> take 2 (handleImageUpload (\<lambda>_. [LoadEnd (Some (js ''data:image/png;base64,AA''))])
         (\<lambda>_ _. Resolved (js ''ok''))
         (Some \<lparr>file_type = js ''image/png'', file_size = 20 * 1024 * 1024\<rparr>))
       = [ReadAsDataURL \<lparr>file_type = js ''image/png'', file_size = 20 * 1024 * 1024\<rparr>, ResetFileInput]"
proof -
  let ?big = "\<lparr>file_type = js ''image/png'', file_size = 25 * 1024 * 1024\<rparr>"
  let ?max = "\<lparr>file_type = js ''image/png'', file_size = 20 * 1024 * 1024\<rparr>"
  let ?rd = "(\<lambda>_. [LoadEnd (Some (js ''data:image/png;base64,AA''))]) :: file_reader"
  let ?an = "(\<lambda>_ _. Resolved (js ''ok'')) :: analyzer"
  have t1: "startsWith (file_type ?big) (js ''image/'')"
    by (simp add: startsWith_def js_def)
  have t2: "startsWith (file_type ?max) (js ''image/'')"
    by (simp add: startsWith_def js_def)
  have gt: "file_size ?big > 20 * 1024 * 1024" by simp
  have le: "file_size ?max \<le> 20 * 1024 * 1024" by simp
  note big = upload_size_check [OF t1, of ?rd ?an]
  note max = upload_size_check [OF t2, of ?rd ?an]
  note c1 = big [THEN conjunct1, THEN iffD2, OF gt]
  note c2 = big [THEN conjunct2, THEN conjunct1, THEN mp, OF gt]
  have c3: "handleImageUpload ?rd ?an (Some ?max)
       \<noteq> [SetError (Some (js ''Image size should be less than 20MB''))]"
  proof
    assume "handleImageUpload ?rd ?an (Some ?max)
       = [SetError (Some (js ''Image size should be less than 20MB''))]"
    then have "file_size ?max > 20 * 1024 * 1024"
      by (rule max [THEN conjunct1, THEN iffD1])
    then show False by simp
  qed
  note c4 = max [THEN conjunct2, THEN conjunct2, THEN mp, OF le]
  show ?thesis
    by (intro conjI) (rule t1 c1 c2 t2 c3 c4)+
qed

text \<open>
  Claim C8. For a file whose type does not start with \<open>image/\<close>,
  \<open>handleImageUpload\<close> does nothing but set the type error, whatever the size of the
  file (the type is checked first), and the analyzer is not called.
\<close>

theorem upload_type_check:
  assumes "\<not> startsWith (file_type file) (js ''image/'')"
  shows "handleImageUpload readAsDataURL analyzeImage (Some file) =
            [SetError (Some (js ''Please upload a valid image file''))]
     \<and> analyzer_calls (handleImageUpload readAsDataURL analyzeImage (Some file)) = []
     \<and> handleImageUpload readAsDataURL analyzeImage (Some file) \<noteq>
            [SetError (Some (js ''Image size should be less than 20MB''))]"
proof -
  have "js ''Please upload a valid image file'' \<noteq> js ''Image size should be less than 20MB''"
    by (simp add: js_def)
  with assms show ?thesis by (simp add: handleImageUpload_def)
qed

theorem upload_type_check_witness:
  "\<not> startsWith (file_type \<lparr>file_type = js ''text/plain'', file_size = 25 * 1024 * 1024\<rparr>) (js ''image/'')
   \<and> handleImageUpload (\<lambda>_. [LoadEnd (Some (js ''data:text/plain;base64,AA''))])
         (\<lambda>_ _. Resolved (js ''ok''))
         (Some \<lparr>file_type = js ''text/plain'', file_size = 25 * 1024 * 1024\<rparr>)
       = [SetError (Some (js ''Please upload a valid image file''))]
   \<and> analyzer_calls (handleImageUpload (\<lambda>_. [LoadEnd (Some (js ''data:text/plain;base64,AA''))])
         (\<lambda>_ _. Resolved (js ''ok''))
         (Some \<lparr>file_type = js ''text/plain'', file_size = 25 * 1024 * 1024\<rparr>)) = []"
proof -
  let ?f = "\<lparr>file_type = js ''text/plain'', file_size = 25 * 1024 * 1024\<rparr>"
  let ?rd = "(\<lambda>_. [LoadEnd (Some (js ''data:text/plain;base64,AA''))]) :: file_reader"
  let ?an = "(\<lambda>_ _. Resolved (js ''ok'')) :: analyzer"
  have h: "\<not> startsWith (file_type ?f) (js ''image/'')"
    by (simp add: startsWith_def js_def)
  note c = upload_type_check [OF h, of ?rd ?an]
  show ?thesis
    by (intro conjI) (rule h c [THEN conjunct1] c [THEN conjunct2, THEN conjunct1])+
qed

text \<open>
  Claim C9. For a file of an image type, within the size limit, whose read ends with the
  data URI \<open>dataUri\<close>, the analyzer is called exactly once, with \<open>dataUri\<close> and
  \<open>coinPrompt\<close>; when it is fulfilled with \<open>result\<close>, the state ends with the new
  image, \<open>result\<close> as analysis, no error, and \<open>loading\<close> false.
\<close>

theorem valid_upload:
  assumes "startsWith (file_type file) (js ''image/'')"
    and "file_size file \<le> 20 * 1024 * 1024"
    and "readAsDataURL file = [LoadEnd (Some dataUri)]"
  shows "analyzer_calls (handleImageUpload readAsDataURL analyzeImage (Some file)) =
            [(Some dataUri, coinPrompt)]
     \<and> (\<forall>result. analyzeImage (Some dataUri) coinPrompt = Resolved result \<longrightarrow>
          exec (handleImageUpload readAsDataURL analyzeImage (Some file)) st =
            st\<lparr>image_st := Some dataUri, analysis := result, loading := False, error := None\<rparr>)"
proof -
  have effs: "handleImageUpload readAsDataURL analyzeImage (Some file) =
      [ReadAsDataURL file, ResetFileInput, SetImage (Some dataUri), SetError None]
      @ handleAnalyze analyzeImage (Some dataUri)"
    using assms by (simp add: handleImageUpload_def)
  have calls: "analyzer_calls (handleImageUpload readAsDataURL analyzeImage (Some file)) =
      [(Some dataUri, coinPrompt)]"
    by (simp add: effs analyzer_calls_append analyzer_calls_handleAnalyze)
  have "exec (handleImageUpload readAsDataURL analyzeImage (Some file)) st =
      st\<lparr>image_st := Some dataUri, analysis := result, loading := False, error := None\<rparr>"
    if "analyzeImage (Some dataUri) coinPrompt = Resolved result" for result
    using that by (simp add: effs handleAnalyze_def exec_append exec_Cons exec_Nil)
  with calls show ?thesis by blast
qed

theorem valid_upload_witness:
  "startsWith (file_type \<lparr>file_type = js ''image/jpeg'', file_size = 1024 * 1024\<rparr>) (js ''image/'')
   \<and> file_size \<lparr>file_type = js ''image/jpeg'', file_size = 1024 * 1024\<rparr> \<le> 20 * 1024 * 1024
   \<and> (\<lambda>_. [LoadEnd (Some (js ''data:image/jpeg;base64,AA''))])
         \<lparr>file_type = js ''image/jpeg'', file_size = 1024 * 1024\<rparr>
       = [LoadEnd (Some (js ''data:image/jpeg;base64,AA''))]
   \<and> analyzer_calls (handleImageUpload (\<lambda>_. [LoadEnd (Some (js ''data:image/jpeg;base64,AA''))])
         (\<lambda>_ _. Resolved (js ''1. Coin Identification:''))
         (Some \<lparr>file_type = js ''image/jpeg'', file_size = 1024 * 1024\<rparr>))
       = [(Some (js ''data:image/jpeg;base64,AA''), coinPrompt)]
   \<and> (\<lambda>_ _. Resolved (js ''1. Coin Identification:'')) (Some (js ''data:image/jpeg;base64,AA'')) coinPrompt
       = Resolved (js ''1. Coin Identification:'')
   \<and> exec (handleImageUpload (\<lambda>_. [LoadEnd (Some (js ''data:image/jpeg;base64,AA''))])
         (\<lambda>_ _. Resolved (js ''1. Coin Identification:''))
         (Some \<lparr>file_type = js ''image/jpeg'', file_size = 1024 * 1024\<rparr>))
         \<lparr>image_st = None, analysis = js ''old'', loading = False, error = Some (js ''Please upload a valid image file'')\<rparr>
       = \<lparr>image_st = Some (js ''data:image/jpeg;base64,AA''), analysis = js ''1. Coin Identification:'',
          loading = False, error = None\<rparr>"
proof -
  let ?f = "\<lparr>file_type = js ''image/jpeg'', file_size = 1024 * 1024\<rparr>"
  let ?uri = "js ''data:image/jpeg;base64,AA''"
  let ?rd = "(\<lambda>_. [LoadEnd (Some ?uri)]) :: file_reader"
  let ?an = "(\<lambda>_ _. Resolved (js ''1. Coin Identification:'')) :: analyzer"
  let ?st = "\<lparr>image_st = None, analysis = js ''old'', loading = False,
              error = Some (js ''Please upload a valid image file'')\<rparr>"
  have h1: "startsWith (file_type ?f) (js ''image/'')"
    by (simp add: startsWith_def js_def)
  have h2: "file_size ?f \<le> 20 * 1024 * 1024" by simp
  have h3: "?rd ?f = [LoadEnd (Some ?uri)]" by simp
  have h4: "?an (Some ?uri) coinPrompt = Resolved (js ''1. Coin Identification:'')" by simp
  note c = valid_upload [OF h1 h2 h3, of ?an ?st]
  note c1 = c [THEN conjunct1]
  have c2: "exec (handleImageUpload ?rd ?an (Some ?f)) ?st =
      \<lparr>image_st = Some ?uri, analysis = js ''1. Coin Identification:'', loading = False, error = None\<rparr>"
    using c [THEN conjunct2, rule_format, OF h4] by simp
  show ?thesis
    by (intro conjI) (rule h1 h2 h3 c1 h4 c2)+
qed

text \<open>
  Claim C10. When \<open>handleImageUpload\<close> rejects a file for its type or its size, the
  only effect is one call of \<open>setError\<close>: image, analysis and \<open>loading\<close> are as
  before.
\<close>

theorem rejected_upload_frame:
  assumes "\<not> startsWith (file_type file) (js ''image/'') \<or> file_size file > 20 * 1024 * 1024"
  shows "\<exists>message.
       handleImageUpload readAsDataURL analyzeImage (Some file) = [SetError (Some message)]
     \<and> exec (handleImageUpload readAsDataURL analyzeImage (Some file)) st =
           st\<lparr>error := Some message\<rparr>
     \<and> image_st (exec (handleImageUpload readAsDataURL analyzeImage (Some file)) st) = image_st st
     \<and> analysis (exec (handleImageUpload readAsDataURL analyzeImage (Some file)) st) = analysis st
     \<and> loading (exec (handleImageUpload readAsDataURL analyzeImage (Some file)) st) = loading st"
  using assms by (auto simp: handleImageUpload_def exec_Cons exec_Nil)

theorem rejected_upload_frame_witness:
  "file_size \<lparr>file_type = js ''image/png'', file_size = 25 * 1024 * 1024\<rparr> > 20 * 1024 * 1024
   \<and> (\<exists>message.
        exec (handleImageUpload (\<lambda>_. [LoadEnd (Some (js ''data:image/png;base64,AA''))])
          (\<lambda>_ _. Resolved (js ''ok''))
          (Some \<lparr>file_type = js ''image/png'', file_size = 25 * 1024 * 1024\<rparr>))
          \<lparr>image_st = Some (js ''data:image/jpeg;base64,BB''), analysis = js ''1. Coin Identification:'',
            loading = False, error = None\<rparr>
        = \<lparr>image_st = Some (js ''data:image/jpeg;base64,BB''), analysis = js ''1. Coin Identification:'',
            loading = False, error = Some message\<rparr>)"
proof -
  let ?f = "\<lparr>file_type = js ''image/png'', file_size = 25 * 1024 * 1024\<rparr>"
  let ?rd = "(\<lambda>_. [LoadEnd (Some (js ''data:image/png;base64,AA''))]) :: file_reader"
  let ?an = "(\<lambda>_ _. Resolved (js ''ok'')) :: analyzer"
  let ?st = "\<lparr>image_st = Some (js ''data:image/jpeg;base64,BB''), analysis = js ''1. Coin Identification:'',
            loading = False, error = None\<rparr>"
  have gt: "file_size ?f > 20 * 1024 * 1024"
    by simp
  then have h: "\<not> startsWith (file_type ?f) (js ''image/'') \<or> file_size ?f > 20 * 1024 * 1024"
    by (rule disjI2)
  from rejected_upload_frame [OF h, of ?rd ?an ?st]
  obtain message where "exec (handleImageUpload ?rd ?an (Some ?f)) ?st = ?st\<lparr>error := Some message\<rparr>"
    by blast
  then have "\<exists>message. exec (handleImageUpload ?rd ?an (Some ?f)) ?st =
      \<lparr>image_st = Some (js ''data:image/jpeg;base64,BB''), analysis = js ''1. Coin Identification:'',
            loading = False, error = Some message\<rparr>"
    by simp
  with gt show ?thesis by (rule conjI)
qed

end
